theory Spec2Isabelle
  imports Main "HOL-Library.Char_ord" "HOL-Library.List_Lexorder"
begin

section \<open>JavaScript strings and arrays\<close>

text \<open>
  A JavaScript string is modelled as a \<^typ>\<open>string\<close>: a list of code units, here the
  units 0 to 255. The functions below are the methods of \<^verbatim>\<open>String.prototype\<close> and
  \<^verbatim>\<open>Array.prototype\<close> that \<^verbatim>\<open>lib/autocomplete.js\<close> calls, with the arguments it uses.
\<close>

text \<open>\<^verbatim>\<open>\s\<close> and the characters \<^verbatim>\<open>trim\<close> removes: tab, line feed, vertical tab, form
  feed, carriage return, space and no-break space.\<close>

definition is_space :: "char \<Rightarrow> bool" where
  "is_space c = (c \<in> set [CHR 0x09, CHR 0x0A, CHR 0x0B, CHR 0x0C, CHR 0x0D, CHR '' '', CHR 0xA0])"

text \<open>The line terminators, which \<^verbatim>\<open>.\<close> of a regular expression does not match.\<close>

definition is_line_terminator :: "char \<Rightarrow> bool" where
  "is_line_terminator c = (c \<in> set [CHR 0x0A, CHR 0x0D])"

text \<open>
  \<^verbatim>\<open>toLowerCase\<close> on one code unit: A to Z, and the upper-case letters of Latin-1. On
  the code units 0 to 255 the lower case of a unit is one unit. A string with a character
  whose lower case has several code units (such as U+0130) is not a string of this model,
  and nothing below speaks of it.
\<close>

definition to_lower :: "char \<Rightarrow> char" where
  "to_lower c = (let n = (of_char c :: nat) in
     if (65 \<le> n \<and> n \<le> 90) \<or> (192 \<le> n \<and> n \<le> 222 \<and> n \<noteq> 215)
     then char_of (n + 32) else c)"

definition toLowerCase :: "string \<Rightarrow> string" where
  "toLowerCase s = map to_lower s"

text \<open>\<^verbatim>\<open>s.slice(b, e)\<close>: a negative index counts from the end, and both are clamped.\<close>

definition slice :: "'a list \<Rightarrow> int \<Rightarrow> int \<Rightarrow> 'a list" where
  "slice s b e =
     (let n = int (length s);
          from = (if b < 0 then max (n + b) 0 else min b n);
          to = (if e < 0 then max (n + e) 0 else min e n)
      in take (nat (to - from)) (drop (nat from) s))"

text \<open>\<^verbatim>\<open>s.slice(b)\<close>.\<close>

definition slice_from :: "'a list \<Rightarrow> int \<Rightarrow> 'a list" where
  "slice_from s b = slice s b (int (length s))"

text \<open>\<^verbatim>\<open>s.substr(start, len)\<close> and \<^verbatim>\<open>s.substr(start)\<close>, for the indices the source passes
  (lengths of strings).\<close>

definition substr :: "string \<Rightarrow> nat \<Rightarrow> nat \<Rightarrow> string" where
  "substr s start len = take len (drop start s)"

definition substr_from :: "string \<Rightarrow> nat \<Rightarrow> string" where
  "substr_from s start = drop start s"

text \<open>\<^verbatim>\<open>s.split(sep)\<close> for a separator of one character: the result is never empty.\<close>

fun split :: "char \<Rightarrow> string \<Rightarrow> string list" where
  "split sep [] = [[]]"
| "split sep (c # cs) =
     (if c = sep then [] # split sep cs
      else (case split sep cs of [] \<Rightarrow> [[c]] | w # ws \<Rightarrow> (c # w) # ws))"

text \<open>\<^verbatim>\<open>xs.join(sep)\<close> for a separator of one character.\<close>

fun join :: "char \<Rightarrow> string list \<Rightarrow> string" where
  "join sep [] = []"
| "join sep [x] = x"
| "join sep (x # y # ys) = x @ sep # join sep (y # ys)"

text \<open>\<^verbatim>\<open>s.replace(/^\s+/g, '')\<close> and \<^verbatim>\<open>s.trim()\<close>.\<close>

definition trim_start :: "string \<Rightarrow> string" where
  "trim_start s = dropWhile is_space s"

definition trim :: "string \<Rightarrow> string" where
  "trim s = rev (dropWhile is_space (rev (dropWhile is_space s)))"

text \<open>\<^verbatim>\<open>new Array(n + 1).join(' ')\<close>: \<open>n\<close> spaces.\<close>

definition spaces :: "nat \<Rightarrow> string" where
  "spaces n = replicate n (CHR '' '')"

text \<open>\<^verbatim>\<open>x || ''\<close> on a string that may be undefined.\<close>

definition or_empty :: "string option \<Rightarrow> string" where
  "or_empty x = (case x of None \<Rightarrow> [] | Some s \<Rightarrow> s)"

section \<open>The input object\<close>

text \<open>
  The object \<^verbatim>\<open>parseInput\<close> builds and the later stages update. Its \<^verbatim>\<open>context\<close> can
  become undefined (\<^verbatim>\<open>getMatchObject\<close> assigns it a variable that may never have been
  set), so the field is an option; \<^verbatim>\<open>match\<close> and \<^verbatim>\<open>option\<close> are absent until a stage
  sets them. The type \<open>'c\<close> is the type of the matched command.
\<close>

record 'c input =
  i_raw :: string
  i_prefix :: string
  i_suffix :: string
  i_context :: "string option"
  i_match :: "'c option"
  i_option :: "string option"

section \<open>getSuffix\<close>

text \<open>
  \<^verbatim>\<open>/.+?(?=\s)/\<close> tried at the start of a string: the least number \<open>k \<ge> 1\<close> of
  characters, none a line terminator, that a white-space character follows.
\<close>

fun regex_at :: "string \<Rightarrow> nat option" where
  "regex_at [] = None"
| "regex_at (c # cs) =
     (if is_line_terminator c then None
      else (case cs of
              [] \<Rightarrow> None
            | d # _ \<Rightarrow> if is_space d then Some 1 else map_option Suc (regex_at cs)))"

text \<open>\<^verbatim>\<open>s.replace(/.+?(?=\s)/, '')\<close>: the leftmost match is removed, if there is one.\<close>

fun replace_first :: "string \<Rightarrow> string" where
  "replace_first [] = []"
| "replace_first (c # cs) =
     (case regex_at (c # cs) of
        Some k \<Rightarrow> drop k (c # cs)
      | None \<Rightarrow> c # replace_first cs)"

definition getSuffix :: "string \<Rightarrow> string" where
  "getSuffix suffix =
     (let suffix1 = (if slice suffix 0 1 = '' '' then suffix else replace_first suffix)
      in slice suffix1 1 (int (length suffix1)))"

section \<open>parseInput and assembleInput\<close>

text \<open>The function \<^verbatim>\<open>strip\<close> of the package strip-ansi is a parameter of every function
  that calls it.\<close>

definition parseInput :: "string \<Rightarrow> int \<Rightarrow> 'c input" where
  "parseInput str idx =
     (let raw = str;
          sliced = slice raw 0 idx;
          sections = split (CHR ''|'') sliced;
          prefix = join (CHR ''|'') (slice sections 0 (int (length sections) - 1) @ [[]]);
          suffix = getSuffix (slice_from raw idx);
          context = last sections
      in \<lparr>i_raw = raw, i_prefix = prefix, i_suffix = suffix, i_context = Some context,
          i_match = None, i_option = None\<rparr>)"

definition assembleInput :: "(string \<Rightarrow> string) \<Rightarrow> 'c input \<Rightarrow> string" where
  "assembleInput strip input =
     strip (i_prefix input @ or_empty (i_context input) @ i_suffix input)"

section \<open>JavaScript values\<close>

text \<open>
  The values that reach the engine as candidate data or as a completion result: what a
  data provider returns, delivers, or rejects a promise with. A candidate list is an array
  of strings; \<open>ErrorObj\<close> is an \<^verbatim>\<open>Error\<close> object with its message.
\<close>

datatype jsval =
    Undefined
  | Null
  | Bool bool
  | Str string
  | Arr "string list"
  | ErrorObj string

text \<open>The truthiness \<^verbatim>\<open>if (x)\<close>, \<^verbatim>\<open>x || y\<close> and \<^verbatim>\<open>x && y\<close> test.\<close>

fun truthy :: "jsval \<Rightarrow> bool" where
  "truthy Undefined = False"
| "truthy Null = False"
| "truthy (Bool b) = b"
| "truthy (Str s) = (s \<noteq> [])"
| "truthy (Arr xs) = True"
| "truthy (ErrorObj m) = True"

text \<open>\<^verbatim>\<open>if (s)\<close> on a string that may be undefined.\<close>

fun truthy_str :: "string option \<Rightarrow> bool" where
  "truthy_str None = False"
| "truthy_str (Some s) = (s \<noteq> [])"

section \<open>handleTabCounts\<close>

text \<open>
  The counter \<^verbatim>\<open>this._tabCtr\<close> of the session is passed in and returned. It is a
  JavaScript number that holds an integer. \<^verbatim>\<open>x += 1\<close> on such a number: exact from
  \<open>-2^53\<close> to \<open>2^53 - 1\<close>; beyond, up to \<open>2^54\<close> in absolute value, the sum lies half way
  between two numbers and is rounded to the multiple of 4; farther out the number stays
  as it is.
\<close>

definition add_one :: "int \<Rightarrow> int" where
  "add_one x =
     (if - (2 ^ 53) \<le> x \<and> x < 2 ^ 53 then x + 1
      else if \<bar>x\<bar> < 2 ^ 54 then (if (x div 2) mod 2 = 0 then x else x + 2)
      else x)"

definition handleTabCounts :: "jsval \<Rightarrow> int \<Rightarrow> jsval \<times> int" where
  "handleTabCounts str tabCtr =
     (case str of
        Arr xs \<Rightarrow>
          (let tabCtr1 = add_one tabCtr
           in ((if tabCtr1 > 1 then (if length xs = 0 then Undefined else Arr xs) else Undefined),
               tabCtr1))
      | _ \<Rightarrow> (str, 0))"

section \<open>match\<close>

text \<open>The first loop of \<^verbatim>\<open>go\<close>: the candidates whose stripped text starts with the probe,
  compared in lower case.\<close>

definition go_matches :: "(string \<Rightarrow> string) \<Rightarrow> string list \<Rightarrow> string \<Rightarrow> string list" where
  "go_matches strip arrX strX =
     filter (\<lambda>a. toLowerCase (slice (strip a) 0 (int (length strX))) = toLowerCase strX) arrX"

text \<open>
  The loop over \<open>k\<close> of \<^verbatim>\<open>go\<close>, from \<open>k\<close> on, with \<open>m0\<close> for \<^verbatim>\<open>matches[0]\<close>: it ends at
  the first \<open>k\<close> where the matches disagree, or after \<open>k = length m0\<close>.
\<close>

function go_loop ::
  "(string \<Rightarrow> string) \<Rightarrow> string list \<Rightarrow> string \<Rightarrow> nat \<Rightarrow> string \<Rightarrow> string" where
  "go_loop strip matches m0 k furthest =
     (if k \<le> length m0 then
        (let curr = toLowerCase (slice (strip m0) 0 (int k));
             same = length (filter
                      (\<lambda>m. toLowerCase (slice (strip m) 0 (int (length curr))) = curr) matches)
         in if same = length matches then go_loop strip matches m0 (Suc k) curr
            else furthest)
      else furthest)"
  by pat_completeness auto
termination
  by (relation "measure (\<lambda>(strip, matches, m0, k, furthest). Suc (length m0) - k)") auto

definition go :: "(string \<Rightarrow> string) \<Rightarrow> string list \<Rightarrow> string \<Rightarrow> string option" where
  "go strip arrX strX =
     (let matches = go_matches strip arrX strX
      in case matches of
           [] \<Rightarrow> None
         | [m] \<Rightarrow> Some (m @ '' '')
         | m0 # _ \<Rightarrow>
             (let furthest = go_loop strip matches m0 (length strX) strX
              in if furthest \<noteq> strX then Some furthest else None))"

text \<open>
  \<^verbatim>\<open>autocomplete.match\<close>. A falsy \<open>arr\<close> is replaced by the empty array; a truthy value
  that is not an array has no method \<^verbatim>\<open>sort\<close>, and the call throws a \<^verbatim>\<open>TypeError\<close>
  (\<open>Inl\<close>). The array is sorted in place, by code units, before it is copied.
\<close>

definition sort_TypeError :: jsval where
  "sort_TypeError = ErrorObj ''TypeError: arr.sort is not a function''"

definition match :: "(string \<Rightarrow> string) \<Rightarrow> string \<Rightarrow> jsval \<Rightarrow> jsval + string option" where
  "match strip str arr =
     (case (if truthy arr then arr else Arr []) of
        Arr xs \<Rightarrow> Inr (go strip (sort xs) str)
      | _ \<Rightarrow> Inl sort_TypeError)"

text \<open>What \<^verbatim>\<open>arr.sort()\<close> in \<^verbatim>\<open>match\<close> leaves in the caller's array.\<close>

definition sorted_in_place :: "jsval \<Rightarrow> jsval" where
  "sorted_in_place arr = (case arr of Arr xs \<Rightarrow> Arr (sort xs) | _ \<Rightarrow> arr)"

text \<open>
  The test \<^verbatim>\<open>same === matches.length\<close> of the loop at \<open>k\<close>: every match agrees with
  \<open>m0\<close>, stripped and in lower case, on the first \<open>k\<close> characters (on all of the stripped
  \<open>m0\<close> when it is shorter).
\<close>

definition all_agree :: "(string \<Rightarrow> string) \<Rightarrow> string list \<Rightarrow> string \<Rightarrow> nat \<Rightarrow> bool" where
  "all_agree strip ms m0 k =
     (let curr = toLowerCase (take k (strip m0))
      in list_all (\<lambda>m. toLowerCase (take (length curr) (strip m)) = curr) ms)"

section \<open>getMatch and filterData\<close>

definition getMatch :: "(string \<Rightarrow> string) \<Rightarrow> string \<Rightarrow> jsval \<Rightarrow> jsval + string option" where
  "getMatch strip ctx data =
     (let len = length ctx;
          trimmed = trim_start ctx;
          prefix = spaces (len - length trimmed)
      in case match strip trimmed data of
           Inl ex \<Rightarrow> Inl ex
         | Inr None \<Rightarrow> Inr None
         | Inr (Some m) \<Rightarrow> if m \<noteq> [] then Inr (Some (prefix @ m)) else Inr None)"

text \<open>A truthy \<open>data\<close> that is not an array has no method \<^verbatim>\<open>filter\<close>.\<close>

definition filter_TypeError :: jsval where
  "filter_TypeError = ErrorObj ''TypeError: data.filter is not a function''"

definition filterData :: "(string \<Rightarrow> string) \<Rightarrow> string option \<Rightarrow> jsval \<Rightarrow> jsval + string list" where
  "filterData strip str data =
     (let ctx = trim (or_empty str)
      in case (if truthy data then data else Arr []) of
           Arr xs \<Rightarrow> Inr (filter (\<lambda>item. slice (strip item) 0 (int (length ctx)) = ctx) xs)
         | _ \<Rightarrow> Inl filter_TypeError)"

section \<open>Data providers, options and commands\<close>

text \<open>
  What calling a provider function does, as far as the engine can see: the values it
  passes to its second argument, in order, and how the call ends: with a value that is
  not a thenable, with a thenable (a promise, fulfilled or rejected with a value, or never
  settled), or with an exception. The deliveries are taken before the settlement of the
  promise, and an exception thrown by the engine's continuation during a delivery is
  not caught by the provider.
\<close>

datatype settlement = Fulfils jsval | Rejects jsval | Pending

datatype outcome = Returns jsval | ReturnsThenable settlement | Throws jsval

record behaviour =
  delivers :: "jsval list"
  outcome :: outcome

text \<open>
  An \<^verbatim>\<open>autocomplete\<close> configuration: an array, a function with its declared number of
  parameters (\<^verbatim>\<open>config.length\<close>) and its behaviour on the context it is called with, or
  anything else (undefined included).
\<close>

datatype provider =
    NoData
  | StaticList "string list"
  | Function nat "string option \<Rightarrow> behaviour"

text \<open>The \<^verbatim>\<open>_autocomplete\<close> of a command is such a configuration, or an object that holds
  one as its \<^verbatim>\<open>data\<close>.\<close>

datatype autocomplete_conf = Direct provider | WithData provider

fun conf_data :: "autocomplete_conf \<Rightarrow> provider" where
  "conf_data (Direct p) = p"
| "conf_data (WithData p) = p"

record cmd_option =
  o_short :: "string option"
  o_long :: "string option"
  o_autocomplete :: provider

record command =
  c_name :: string
  c_aliases :: "string list"
  c_catch :: bool
  c_options :: "cmd_option list"
  c_autocomplete :: autocomplete_conf

definition getCommandNames :: "command list \<Rightarrow> string list" where
  "getCommandNames cmds = sort (map c_name cmds @ concat (map c_aliases cmds))"

section \<open>getMatchObject\<close>

text \<open>\<^verbatim>\<open>String(x)\<close> on a string that may be undefined.\<close>

definition String_of :: "string option \<Rightarrow> string" where
  "String_of x = (case x of None \<Rightarrow> ''undefined'' | Some s \<Rightarrow> s)"

text \<open>The body of \<^verbatim>\<open>commands.forEach\<close>, on the variables \<^verbatim>\<open>match\<close> (here \<open>matched\<close>), \<open>suffix\<close> and \<open>prefix\<close>.\<close>

definition scan_command ::
  "string \<Rightarrow> string option \<times> string option \<times> string \<Rightarrow> string
     \<Rightarrow> string option \<times> string option \<times> string" where
  "scan_command trimmed vars cmd =
     (case vars of (matched, suffix, prefix) \<Rightarrow>
        if substr trimmed 0 (length cmd) = cmd \<and> trim cmd \<noteq> []
        then (Some cmd, Some (substr_from trimmed (length cmd)),
              prefix @ substr trimmed 0 (length cmd))
        else (matched, suffix, prefix))"

text \<open>The loop over the registry that looks the match up among the aliases: the last
  command that has it wins.\<close>

definition alias_lookup :: "command list \<Rightarrow> string \<Rightarrow> command option" where
  "alias_lookup cmds name =
     foldl (\<lambda>matchObject cmd. if name \<in> set (c_aliases cmd) then Some cmd else matchObject)
       None cmds"

text \<open>
  \<^verbatim>\<open>getMatchObject\<close>, for the registry \<^verbatim>\<open>this.parent.commands\<close>. Reading the length of an
  undefined context throws. The command is looked up by name when \<^verbatim>\<open>match\<close> is set
  (\<open>matchObject1\<close>), then among the aliases (\<open>matchObject2\<close>), then as the first
  catch-all command (\<open>matchObject3\<close>), which takes the whole context as the new one.
  When nothing is found the source assigns its local \<open>prefix\<close> and \<open>suffix\<close> and
  returns the input as it was.
\<close>

definition context_TypeError :: jsval where
  "context_TypeError = ErrorObj ''TypeError: cannot read property length of undefined''"

definition getMatchObject ::
  "command list \<Rightarrow> command input \<Rightarrow> string list \<Rightarrow> jsval + command input" where
  "getMatchObject cmds input commands =
     (case i_context input of
        None \<Rightarrow> Inl context_TypeError
      | Some ctx \<Rightarrow>
          (let len = length ctx;
               trimmed = trim_start ctx;
               prefix0 = spaces (len - length trimmed)
           in case foldl (scan_command trimmed) (None, None, prefix0) commands of
                (matched, suffix, prefix) \<Rightarrow>
                  (let matchObject1 =
                         (if truthy_str matched
                          then find (\<lambda>c. c_name c = trim (String_of matched)) cmds else None);
                       matchObject2 =
                         (if matchObject1 = None then alias_lookup cmds (trim (String_of matched))
                          else matchObject1);
                       matchObject3 =
                         (if matchObject2 = None then find c_catch cmds else matchObject2);
                       suffix3 =
                         (if matchObject2 = None \<and> matchObject3 \<noteq> None then i_context input
                          else suffix)
                   in case matchObject3 of
                        None \<Rightarrow> Inr input
                      | Some matchObject \<Rightarrow>
                          Inr (input\<lparr>i_match := Some matchObject,
                                     i_prefix := i_prefix input @ prefix,
                                     i_context := suffix3\<rparr>))))"

section \<open>parseMatchSection\<close>

definition parseMatchSection :: "(string \<Rightarrow> string) \<Rightarrow> 'c input \<Rightarrow> 'c input" where
  "parseMatchSection strip input =
     (let parts0 = split (CHR '' '') (or_empty (i_context input));
          last_part = last parts0;
          parts = butlast parts0;
          beforeLast = trim (strip (if parts = [] then [] else last parts))
      in input\<lparr>i_option := (if slice beforeLast 0 1 = ''-'' then Some beforeLast
                               else i_option input),
                 i_context := Some last_part,
                 i_prefix := i_prefix input @ join (CHR '' '') parts @ '' ''\<rparr>)"

section \<open>getMatchData\<close>

text \<open>
  An exception that nothing catches: thrown out of the call in progress, and so out of
  \<^verbatim>\<open>exec\<close>, or raised in a handler of a provider's promise, after \<^verbatim>\<open>exec\<close> has
  returned, and left as an unhandled rejection.
\<close>

datatype escape = Thrown jsval | Unhandled jsval

fun thrown_value :: "escape \<Rightarrow> jsval" where
  "thrown_value (Thrown ex) = ex"
| "thrown_value (Unhandled ex) = ex"

text \<open>The result of a call made from a handler of a promise: what it throws becomes an
  unhandled rejection.\<close>

fun unhandled :: "'s \<times> escape option \<Rightarrow> 's \<times> escape option" where
  "unhandled (s, None) = (s, None)"
| "unhandled (s, Some e) = (s, Some (Unhandled (thrown_value e)))"

text \<open>
  A continuation takes the value delivered to it and the state of the engine; it returns
  the new state, and the exception it throws, if it throws one.
\<close>

type_synonym 's cont = "jsval \<Rightarrow> 's \<Rightarrow> 's \<times> escape option"

text \<open>The calls of a provider to its second argument, made during the call of the
  provider, until one throws.\<close>

fun deliver_all :: "'s cont \<Rightarrow> jsval list \<Rightarrow> 's \<Rightarrow> 's \<times> escape option" where
  "deliver_all k [] s = (s, None)"
| "deliver_all k (v # vs) s =
     (case k v s of
        (s1, None) \<Rightarrow> deliver_all k vs s1
      | (s1, Some ex) \<Rightarrow> (s1, Some ex))"

text \<open>The function \<^verbatim>\<open>cbk\<close> handed to a provider function: it does nothing when the
  function declares fewer than two parameters.\<close>

definition cbk :: "nat \<Rightarrow> 's cont \<Rightarrow> 's cont" where
  "cbk n callback =
     (if n < 2 then (\<lambda>res s. (s, None))
      else (\<lambda>res. callback (if truthy res then res else Arr [])))"

text \<open>
  \<^verbatim>\<open>handleDataFormat\<close>. The handlers of a returned promise are
  \<^verbatim>\<open>res.then(resp => callback(resp)).catch(err => callback(err))\<close>: an exception that
  \<^verbatim>\<open>callback(resp)\<close> throws is itself caught and passed to \<^verbatim>\<open>callback\<close>, and what
  the call in the \<^verbatim>\<open>catch\<close> handler throws is an unhandled rejection. The second
  component of the result is the exception that nothing catches.
\<close>

definition handleDataFormat ::
  "string option \<Rightarrow> provider \<Rightarrow> 's cont \<Rightarrow> 's \<Rightarrow> 's \<times> escape option" where
  "handleDataFormat str config callback s =
     (case config of
        StaticList xs \<Rightarrow> callback (Arr xs) s
      | Function n f \<Rightarrow>
          (let b = f str
           in case deliver_all (cbk n callback) (delivers b) s of
                (s1, Some ex) \<Rightarrow> (s1, Some ex)
              | (s1, None) \<Rightarrow>
                  (case outcome b of
                     Throws ex \<Rightarrow> (s1, Some (Thrown ex))
                   | ReturnsThenable (Fulfils resp) \<Rightarrow>
                       (case callback resp s1 of
                          (s2, None) \<Rightarrow> (s2, None)
                        | (s2, Some err) \<Rightarrow> unhandled (callback (thrown_value err) s2))
                   | ReturnsThenable (Rejects err) \<Rightarrow> unhandled (callback err s1)
                   | ReturnsThenable Pending \<Rightarrow> (s1, None)
                   | Returns res \<Rightarrow> if n < 2 then callback res s1 else (s1, None)))
      | NoData \<Rightarrow> callback (Arr []) s)"

text \<open>The list \<^verbatim>\<open>results\<close> built from the options of the command.\<close>

fun option_flags :: "cmd_option list \<Rightarrow> string list" where
  "option_flags [] = []"
| "option_flags (opt # opts) =
     (if \<not> truthy_str (o_long opt) \<and> truthy_str (o_short opt) then [or_empty (o_short opt)]
      else if truthy_str (o_long opt) then [or_empty (o_long opt)]
      else []) @ option_flags opts"

definition cmd_TypeError :: jsval where
  "cmd_TypeError = ErrorObj ''TypeError: cannot read property options of undefined''"

definition getMatchData ::
  "(string \<Rightarrow> string) \<Rightarrow> command input \<Rightarrow> 's cont \<Rightarrow> 's \<Rightarrow> 's \<times> escape option" where
  "getMatchData strip input cb s =
     (let string = i_context input;
          midOption = (slice (trim (String_of string)) 0 1 = ''-'')
      in case i_match input of
           None \<Rightarrow> (s, Some (Thrown cmd_TypeError))
         | Some cmd \<Rightarrow>
             if midOption then cb (Arr (option_flags (c_options cmd))) s
             else
               (let optMatch =
                      (case i_option input of
                         None \<Rightarrow> None
                       | Some option \<Rightarrow>
                           (let opt = trim (strip option)
                            in case find (\<lambda>x. o_long x = Some opt) (c_options cmd) of
                                 Some longMatch \<Rightarrow> Some longMatch
                               | None \<Rightarrow> find (\<lambda>x. o_short x = Some opt) (c_options cmd)))
                in case optMatch of
                     Some m \<Rightarrow> handleDataFormat string (o_autocomplete m) cb s
                   | None \<Rightarrow> handleDataFormat string (conf_data (c_autocomplete cmd)) cb s))"

section \<open>exec\<close>

text \<open>
  The state of one completion request: the counter \<^verbatim>\<open>_tabCtr\<close> of the session, the
  object \<^verbatim>\<open>input\<close>, which the continuation of \<^verbatim>\<open>getMatchData\<close> updates, and the calls
  made to the completion callback \<^verbatim>\<open>cb\<close>, each with its two arguments.
\<close>

record session =
  s_tabCtr :: int
  s_input :: "command input"
  s_calls :: "(jsval \<times> jsval) list"

text \<open>The function \<^verbatim>\<open>end\<close> of \<^verbatim>\<open>exec\<close>.\<close>

definition end_cb :: "jsval \<Rightarrow> session \<Rightarrow> session" where
  "end_cb str s =
     (case handleTabCounts str (s_tabCtr s) of
        (res, tabCtr) \<Rightarrow> s\<lparr>s_tabCtr := tabCtr, s_calls := s_calls s @ [(Undefined, res)]\<rparr>)"

text \<open>The continuation \<^verbatim>\<open>function (data)\<close> that \<^verbatim>\<open>exec\<close> hands to \<^verbatim>\<open>getMatchData\<close>.\<close>

definition on_data :: "(string \<Rightarrow> string) \<Rightarrow> session cont" where
  "on_data strip data s =
     (let input = s_input s
      in case i_context input of
           None \<Rightarrow> (s, Some (Thrown context_TypeError))
         | Some ctx \<Rightarrow>
             (case getMatch strip ctx data of
                Inl ex \<Rightarrow> (s, Some (Thrown ex))
              | Inr dataMatch \<Rightarrow>
                  if truthy_str dataMatch
                  then (let input1 = input\<lparr>i_context := dataMatch\<rparr>
                        in (end_cb (Str (assembleInput strip input1)) (s\<lparr>s_input := input1\<rparr>),
                            None))
                  else (case filterData strip (i_context input) (sorted_in_place data) of
                          Inl ex \<Rightarrow> (s, Some (Thrown ex))
                        | Inr res \<Rightarrow> (end_cb (Arr res) s, None))))"

text \<open>
  \<^verbatim>\<open>exec\<close>, for the registry \<^verbatim>\<open>this.parent.commands\<close>, the line, the cursor of the
  prompt and the counter of the session. The result is the final state, with the calls
  made to the completion callback, also those made after \<^verbatim>\<open>exec\<close> has returned, and
  the exception that nothing catches, if there is one. The completion callback \<^verbatim>\<open>cb\<close> is taken not to throw. The
  array of names has been sorted in place by \<^verbatim>\<open>match\<close> when \<^verbatim>\<open>getMatchObject\<close> and
  \<^verbatim>\<open>filterData\<close> read it.
\<close>

definition exec ::
  "(string \<Rightarrow> string) \<Rightarrow> command list \<Rightarrow> string \<Rightarrow> int \<Rightarrow> int \<Rightarrow> session \<times> escape option" where
  "exec strip cmds str cursor tabCtr =
     (let input = parseInput str cursor;
          commands = getCommandNames cmds;
          s = \<lparr>s_tabCtr = tabCtr, s_input = input, s_calls = []\<rparr>
      in case i_context input of
           None \<Rightarrow> (s, Some (Thrown context_TypeError))
         | Some ctx \<Rightarrow>
             (case getMatch strip ctx (Arr commands) of
                Inl ex \<Rightarrow> (s, Some (Thrown ex))
              | Inr vorpalMatch \<Rightarrow>
                  if truthy_str vorpalMatch
                  then (let input1 = input\<lparr>i_context := vorpalMatch\<rparr>
                        in (end_cb (Str (assembleInput strip input1)) (s\<lparr>s_input := input1\<rparr>),
                            None))
                  else
                    (case getMatchObject cmds input (sort commands) of
                       Inl ex \<Rightarrow> (s, Some (Thrown ex))
                     | Inr input1 \<Rightarrow>
                         if i_match input1 \<noteq> None
                         then (let input2 = parseMatchSection strip input1
                               in getMatchData strip input2 (on_data strip)
                                    (s\<lparr>s_input := input2\<rparr>))
                         else (case filterData strip (i_context input1) (Arr (sort commands)) of
                                 Inl ex \<Rightarrow> (s\<lparr>s_input := input1\<rparr>, Some (Thrown ex))
                               | Inr res \<Rightarrow> (end_cb (Arr res) (s\<lparr>s_input := input1\<rparr>), None)))))"

text \<open>A continuation that records what it receives, to count deliveries.\<close>

definition recording :: "jsval list cont" where
  "recording v s = (s @ [v], None)"

text \<open>A command with no option and no \<^verbatim>\<open>_autocomplete\<close>, for the examples.\<close>

definition plain_command :: "string \<Rightarrow> string list \<Rightarrow> bool \<Rightarrow> command" where
  "plain_command name aliases catch =
     \<lparr>c_name = name, c_aliases = aliases, c_catch = catch, c_options = [],
      c_autocomplete = Direct NoData\<rparr>"

text \<open>The entries of the list of names that \<^verbatim>\<open>commands.forEach\<close> takes as a match: the
  literal prefixes of the trimmed context that are not blank.\<close>

definition literal_prefixes :: "string \<Rightarrow> string list \<Rightarrow> string list" where
  "literal_prefixes trimmed commands =
     filter (\<lambda>cmd. substr trimmed 0 (length cmd) = cmd \<and> trim cmd \<noteq> []) commands"

text \<open>Every call made to the completion callback has \<^verbatim>\<open>undefined\<close> as its first
  argument.\<close>

definition error_slots_undefined :: "session \<Rightarrow> bool" where
  "error_slots_undefined s = list_all (\<lambda>c. fst c = Undefined) (s_calls s)"

section \<open>Well-behaved data providers\<close>

text \<open>A value the continuation of \<^verbatim>\<open>getMatchData\<close> can take as candidate data: an array,
  or a falsy value, which \<^verbatim>\<open>match\<close> and \<^verbatim>\<open>filterData\<close> replace by the empty array.\<close>

fun listy :: "jsval \<Rightarrow> bool" where
  "listy (Arr xs) = True"
| "listy v = (\<not> truthy v)"

text \<open>
  A call of a provider function that throws nothing and hands the continuation at least
  one value, each of them a list or falsy: the values passed to the delivery callback,
  when the function declares one; the value returned, when it declares none and the value
  is not a thenable; the value a returned promise is fulfilled or rejected with.
\<close>

definition provider_ok :: "nat \<Rightarrow> behaviour \<Rightarrow> bool" where
  "provider_ok n b =
     ((n < 2 \<or> list_all listy (delivers b))
      \<and> (case outcome b of
            Returns res \<Rightarrow> (if n < 2 then listy res else delivers b \<noteq> [])
          | ReturnsThenable (Fulfils v) \<Rightarrow> listy v
          | ReturnsThenable (Rejects e) \<Rightarrow> listy e
          | ReturnsThenable Pending \<Rightarrow> 2 \<le> n \<and> delivers b \<noteq> []
          | Throws ex \<Rightarrow> False))"

fun call_ok :: "provider \<Rightarrow> string option \<Rightarrow> bool" where
  "call_ok NoData str = True"
| "call_ok (StaticList xs) str = True"
| "call_ok (Function n f) str = provider_ok n (f str)"

text \<open>The configuration \<^verbatim>\<open>getMatchData\<close> hands to \<^verbatim>\<open>handleDataFormat\<close>, when it hands
  one: that of the option before the cursor, or else that of the command.\<close>

definition chosen_provider :: "(string \<Rightarrow> string) \<Rightarrow> command input \<Rightarrow> provider option" where
  "chosen_provider strip input =
     (case i_match input of
        None \<Rightarrow> None
      | Some cmd \<Rightarrow>
          if slice (trim (String_of (i_context input))) 0 1 = ''-'' then None
          else
            (case (case i_option input of
                     None \<Rightarrow> None
                   | Some option \<Rightarrow>
                       (let opt = trim (strip option)
                        in case find (\<lambda>x. o_long x = Some opt) (c_options cmd) of
                             Some longMatch \<Rightarrow> Some longMatch
                           | None \<Rightarrow> find (\<lambda>x. o_short x = Some opt) (c_options cmd))) of
               Some m \<Rightarrow> Some (o_autocomplete m)
             | None \<Rightarrow> Some (conf_data (c_autocomplete cmd))))"

text \<open>The configuration that \<^verbatim>\<open>exec\<close> consults for a line and a cursor, with the context
  it passes, when it consults one: it does when no name completes the context and
  \<^verbatim>\<open>getMatchObject\<close> resolves a command.\<close>

definition consulted ::
  "(string \<Rightarrow> string) \<Rightarrow> command list \<Rightarrow> string \<Rightarrow> int
     \<Rightarrow> (provider \<times> string option) option" where
  "consulted strip cmds str cursor =
     (let input = parseInput str cursor;
          commands = getCommandNames cmds
      in case i_context input of
           None \<Rightarrow> None
         | Some ctx \<Rightarrow>
             (case getMatch strip ctx (Arr commands) of
                Inl ex \<Rightarrow> None
              | Inr vorpalMatch \<Rightarrow>
                  if truthy_str vorpalMatch then None
                  else
                    (case getMatchObject cmds input (sort commands) of
                       Inl ex \<Rightarrow> None
                     | Inr input1 \<Rightarrow>
                         (let input2 = parseMatchSection strip input1
                          in case chosen_provider strip input2 of
                               None \<Rightarrow> None
                             | Some p \<Rightarrow> Some (p, i_context input2)))))"

definition consulted_ok :: "(string \<Rightarrow> string) \<Rightarrow> command list \<Rightarrow> string \<Rightarrow> int \<Rightarrow> bool" where
  "consulted_ok strip cmds str cursor =
     (case consulted strip cmds str cursor of
        None \<Rightarrow> True
      | Some (p, ctx) \<Rightarrow> call_ok p ctx)"

text \<open>A command with no option and the given \<^verbatim>\<open>_autocomplete\<close>, for the examples.\<close>

definition provider_command :: "string \<Rightarrow> provider \<Rightarrow> command" where
  "provider_command name p =
     \<lparr>c_name = name, c_aliases = [], c_catch = False, c_options = [],
      c_autocomplete = Direct p\<rparr>"

section \<open>Properties of the string functions\<close>

lemma slice_0_nat: "slice s 0 (int k) = take k s"
  by (simp add: slice_def Let_def min_def)

lemma slice_from_nat: "slice_from s (int k) = drop k s"
  by (simp add: slice_from_def slice_def Let_def min_def)

lemma slice_1_length: "slice s 1 (int (length s)) = drop 1 s"
  by (cases s) (simp_all add: slice_def Let_def)

lemma split_not_Nil: "split sep s \<noteq> []"
  by (induction s) (auto split: list.splits)

lemma join_split: "join sep (split sep s) = s"
proof (induction s)
  case Nil
  show ?case by simp
next
  case (Cons c cs)
  obtain w ws where ws: "split sep cs = w # ws"
    using split_not_Nil [of sep cs] by (cases "split sep cs") auto
  show ?case
  proof (cases "c = sep")
    case True
    with Cons ws show ?thesis by simp
  next
    case False
    with Cons ws show ?thesis by (cases ws) auto
  qed
qed

lemma join_butlast_last:
  "xs \<noteq> [] \<Longrightarrow> join sep (butlast xs @ [[]]) @ last xs = join sep xs"
proof (induction sep xs rule: join.induct)
  case (3 sep x y ys)
  then show ?case by (cases ys) auto
qed auto

lemma slice_butlast: "slice xs 0 (int (length xs) - 1) = butlast xs"
proof (cases xs)
  case Nil
  then show ?thesis by (simp add: slice_def)
next
  case (Cons a as)
  have "slice xs 0 (int (length as)) = take (length as) xs" by (rule slice_0_nat)
  with Cons show ?thesis by (simp add: butlast_conv_take)
qed

lemma prefix_context_sliced:
  "join (CHR ''|'') (slice (split (CHR ''|'') s) 0 (int (length (split (CHR ''|'') s)) - 1) @ [[]])
     @ last (split (CHR ''|'') s) = s"
  by (simp add: slice_butlast join_butlast_last split_not_Nil join_split)

lemma regex_at_no_space: "list_all (\<lambda>c. \<not> is_space c) s \<Longrightarrow> regex_at s = None"
  by (induction s rule: regex_at.induct) (auto split: list.splits)

lemma replace_first_no_space: "list_all (\<lambda>c. \<not> is_space c) s \<Longrightarrow> replace_first s = s"
proof (induction s)
  case Nil
  show ?case by simp
next
  case (Cons c cs)
  then have "regex_at (c # cs) = None" by (intro regex_at_no_space) simp
  with Cons show ?case by simp
qed

section \<open>The claims on splitting and assembling\<close>

text \<open>
  C1, as amended. Assembling the unmodified result of \<^verbatim>\<open>parseInput\<close> gives the stripped
  concatenation of the text before the cursor and of what \<^verbatim>\<open>getSuffix\<close> keeps of the
  text after it; with the cursor at the end of the line this is the stripped raw line.
\<close>

theorem assemble_parseInput:
  "assembleInput strip (parseInput R i) = strip (slice R 0 i @ getSuffix (slice_from R i))
   \<and> assembleInput strip (parseInput R (int (length R))) = strip R"
proof -
  have a: "assembleInput strip (parseInput R j) = strip (slice R 0 j @ getSuffix (slice_from R j))"
    for j
    using prefix_context_sliced [of "slice R 0 j"]
    by (simp add: assembleInput_def parseInput_def Let_def or_empty_def
        flip: append_assoc)
  have "getSuffix (slice_from R (int (length R))) = []"
    by (simp add: slice_from_nat getSuffix_def slice_def)
  then show ?thesis by (simp add: a slice_0_nat)
qed

text \<open>
  C1 as stated fails: with the cursor after the first character of \<^verbatim>\<open>abc\<close> the assembled
  line is \<^verbatim>\<open>ac\<close>. The line holds no formatting code, so \<^verbatim>\<open>strip\<close> leaves it as it is.
\<close>

theorem assemble_parseInput_counterexample:
  "assembleInput (\<lambda>s. s) (parseInput ''abc'' 1) = ''ac''
   \<and> assembleInput (\<lambda>s. s) (parseInput ''abc'' 1) \<noteq> (\<lambda>s. s) ''abc''"
  by code_simp

text \<open>
  C10. A remainder with no white-space character loses exactly its first character: the
  regular expression matches nothing and \<^verbatim>\<open>slice(1)\<close> still applies.
\<close>

theorem getSuffix_no_space:
  "list_all (\<lambda>c. \<not> is_space c) s \<Longrightarrow> getSuffix s = drop 1 s"
proof -
  assume ns: "list_all (\<lambda>c. \<not> is_space c) s"
  then have "replace_first s = s" by (rule replace_first_no_space)
  then show ?thesis by (simp add: getSuffix_def Let_def slice_1_length)
qed

theorem getSuffix_no_space_witness:
  "list_all (\<lambda>c. \<not> is_space c) ''abc'' \<and> getSuffix ''abc'' = ''bc''"
proof -
  have h: "list_all (\<lambda>c. \<not> is_space c) ''abc''" by (simp add: is_space_def)
  show ?thesis using h getSuffix_no_space [OF h] by simp
qed

section \<open>Properties of match\<close>

declare go_loop.simps [simp del]

lemma length_toLowerCase: "length (toLowerCase s) = length s"
  by (simp add: toLowerCase_def)

lemma take_toLowerCase: "take n (toLowerCase s) = toLowerCase (take n s)"
  by (simp add: toLowerCase_def take_map)

lemma length_filter_all: "(length (filter P xs) = length xs) = list_all P xs"
proof (induction xs)
  case Nil
  show ?case by simp
next
  case (Cons x xs)
  show ?case
  proof (cases "P x")
    case True
    with Cons show ?thesis by simp
  next
    case False
    have "length (filter P xs) < Suc (length xs)"
      using length_filter_le [of P xs] by arith
    with False show ?thesis by simp
  qed
qed

lemma go_loop_step:
  "go_loop strip ms m0 k f =
     (if k \<le> length m0 \<and> all_agree strip ms m0 k
      then go_loop strip ms m0 (Suc k) (toLowerCase (take k (strip m0))) else f)"
  by (subst go_loop.simps)
     (simp add: Let_def slice_0_nat length_toLowerCase length_filter_all all_agree_def)

lemma go_loop_cases:
  "(go_loop strip ms m0 k f = f \<and> \<not> (k \<le> length m0 \<and> all_agree strip ms m0 k))
   \<or> (\<exists>j. k \<le> j \<and> j \<le> length m0
          \<and> go_loop strip ms m0 k f = toLowerCase (take j (strip m0))
          \<and> (\<forall>i. k \<le> i \<and> i \<le> j \<longrightarrow> all_agree strip ms m0 i)
          \<and> \<not> (Suc j \<le> length m0 \<and> all_agree strip ms m0 (Suc j)))"
proof (induction strip ms m0 k f rule: go_loop.induct)
  case (1 strip ms m0 k f)
  show ?case
  proof (cases "k \<le> length m0 \<and> all_agree strip ms m0 k")
    case False
    then have "go_loop strip ms m0 k f = f"
      by (subst go_loop_step) auto
    with False show ?thesis by blast
  next
    case True
    let ?curr = "toLowerCase (take k (strip m0))"
    have step: "go_loop strip ms m0 k f = go_loop strip ms m0 (Suc k) ?curr"
      using True go_loop_step [of strip ms m0 k f] by simp
    have same: "length (filter (\<lambda>m. toLowerCase (slice (strip m) 0
        (int (length (toLowerCase (slice (strip m0) 0 (int k)))))) =
        toLowerCase (slice (strip m0) 0 (int k))) ms) = length ms"
      using True
      by (simp add: slice_0_nat length_toLowerCase length_filter_all all_agree_def)
    have ih: "(go_loop strip ms m0 (Suc k) ?curr = ?curr
        \<and> \<not> (Suc k \<le> length m0 \<and> all_agree strip ms m0 (Suc k)))
      \<or> (\<exists>j. Suc k \<le> j \<and> j \<le> length m0
          \<and> go_loop strip ms m0 (Suc k) ?curr = toLowerCase (take j (strip m0))
          \<and> (\<forall>i. Suc k \<le> i \<and> i \<le> j \<longrightarrow> all_agree strip ms m0 i)
          \<and> \<not> (Suc j \<le> length m0 \<and> all_agree strip ms m0 (Suc j)))"
      using "1.IH" [OF _ refl refl same] True by (simp add: slice_0_nat)
    then show ?thesis
    proof
      assume a: "go_loop strip ms m0 (Suc k) ?curr = ?curr
        \<and> \<not> (Suc k \<le> length m0 \<and> all_agree strip ms m0 (Suc k))"
      have "k \<le> k \<and> k \<le> length m0
          \<and> go_loop strip ms m0 k f = toLowerCase (take k (strip m0))
          \<and> (\<forall>i. k \<le> i \<and> i \<le> k \<longrightarrow> all_agree strip ms m0 i)
          \<and> \<not> (Suc k \<le> length m0 \<and> all_agree strip ms m0 (Suc k))"
        using a True step by (auto simp: le_antisym)
      then show ?thesis by blast
    next
      assume "\<exists>j. Suc k \<le> j \<and> j \<le> length m0
          \<and> go_loop strip ms m0 (Suc k) ?curr = toLowerCase (take j (strip m0))
          \<and> (\<forall>i. Suc k \<le> i \<and> i \<le> j \<longrightarrow> all_agree strip ms m0 i)
          \<and> \<not> (Suc j \<le> length m0 \<and> all_agree strip ms m0 (Suc j))"
      then obtain j where j: "Suc k \<le> j" "j \<le> length m0"
        "go_loop strip ms m0 (Suc k) ?curr = toLowerCase (take j (strip m0))"
        "\<forall>i. Suc k \<le> i \<and> i \<le> j \<longrightarrow> all_agree strip ms m0 i"
        "\<not> (Suc j \<le> length m0 \<and> all_agree strip ms m0 (Suc j))"
        by blast
      have "\<forall>i. k \<le> i \<and> i \<le> j \<longrightarrow> all_agree strip ms m0 i"
      proof (intro allI impI)
        fix i assume i: "k \<le> i \<and> i \<le> j"
        show "all_agree strip ms m0 i"
        proof (cases "i = k")
          case True
          with \<open>k \<le> length m0 \<and> all_agree strip ms m0 k\<close> show ?thesis by simp
        next
          case False
          with i have "Suc k \<le> i \<and> i \<le> j" by simp
          with j(4) show ?thesis by blast
        qed
      qed
      with j step have "k \<le> j \<and> j \<le> length m0
          \<and> go_loop strip ms m0 k f = toLowerCase (take j (strip m0))
          \<and> (\<forall>i. k \<le> i \<and> i \<le> j \<longrightarrow> all_agree strip ms m0 i)
          \<and> \<not> (Suc j \<le> length m0 \<and> all_agree strip ms m0 (Suc j))"
        by simp
      then show ?thesis by blast
    qed
  qed
qed

lemma all_agree_iff:
  "all_agree strip ms m0 k =
     list_all (\<lambda>m. toLowerCase (take (min (length (strip m0)) k) (strip m))
                    = toLowerCase (take k (strip m0))) ms"
  by (simp add: all_agree_def Let_def length_toLowerCase)

lemma go_matches_member:
  "m \<in> set (go_matches strip xs p) \<Longrightarrow> toLowerCase (take (length p) (strip m)) = toLowerCase p"
  by (simp add: go_matches_def slice_0_nat)

lemma ci_prefix_length:
  assumes "toLowerCase (take (length q) s) = toLowerCase q"
  shows "length q \<le> length s"
proof -
  have "length (toLowerCase (take (length q) s)) = length (toLowerCase q)"
    using assms by simp
  then show ?thesis by (simp add: length_toLowerCase)
qed

lemma ci_prefix_take:
  assumes "toLowerCase (take (length q) s) = toLowerCase q" and "n \<le> length q"
  shows "toLowerCase (take n s) = toLowerCase (take n q)"
proof -
  have "take n (toLowerCase (take (length q) s)) = take n (toLowerCase q)"
    using assms(1) by simp
  then show ?thesis using assms(2) by (simp add: take_toLowerCase min_def)
qed

text \<open>
  What \<^verbatim>\<open>match\<close> returns on the strings of this model, of code units 0 to 255, when
  several candidates have the probe as a prefix of their stripped text, compared in lower
  case, and these matches share such a prefix longer than the probe: a string \<open>r\<close> that is
  the lower-cased prefix of every stripped match, and no common prefix of the stripped
  matches, compared in lower case, is longer. \<^verbatim>\<open>strip\<close> is any function that does not
  lengthen a string.
\<close>

lemma match_common_prefix:
  assumes strip_len: "\<And>s. length (strip s) \<le> length s"
    and ms: "ms = go_matches strip (sort L) p"
    and multiple: "2 \<le> length ms"
    and longer: "length p < length q"
    and common: "list_all (\<lambda>m. toLowerCase (take (length q) (strip m)) = toLowerCase q) ms"
  shows "\<exists>r. match strip p (Arr L) = Inr (Some r)
            \<and> list_all (\<lambda>m. toLowerCase (take (length r) (strip m)) = r) ms
            \<and> (\<forall>q'. list_all (\<lambda>m. toLowerCase (take (length q') (strip m))
                                       = toLowerCase q') ms
                     \<longrightarrow> length q' \<le> length r)"
proof -
  obtain m0 m1 rest where shape: "ms = m0 # m1 # rest"
    using multiple by (cases ms; cases "tl ms") auto
  let ?S0 = "strip m0"
  have probe: "toLowerCase (take (length p) (strip m)) = toLowerCase p" if "m \<in> set ms" for m
    using that ms go_matches_member by blast
  have m0_in: "m0 \<in> set ms" using shape by simp
  have p_le: "length p \<le> length ?S0" using probe [OF m0_in] by (rule ci_prefix_length)
  have S0_le: "length ?S0 \<le> length m0" by (rule strip_len)
  have "toLowerCase (take (min (length ?S0) (length p)) (strip m))
      = toLowerCase (take (length p) ?S0)" if "m \<in> set ms" for m
    using p_le probe [OF that] probe [OF m0_in] by (simp add: min_absorb2)
  then have "all_agree strip ms m0 (length p)"
    by (simp add: all_agree_iff list_all_iff)
  with p_le S0_le have start: "length p \<le> length m0 \<and> all_agree strip ms m0 (length p)"
    by simp
  let ?r = "go_loop strip ms m0 (length p) p"
  from go_loop_cases [of strip ms m0 "length p" p] start
  obtain j where j: "length p \<le> j" "j \<le> length m0"
      "?r = toLowerCase (take j ?S0)"
      "\<forall>i. length p \<le> i \<and> i \<le> j \<longrightarrow> all_agree strip ms m0 i"
      "\<not> (Suc j \<le> length m0 \<and> all_agree strip ms m0 (Suc j))"
    by blast
  have len_r: "length ?r = min (length ?S0) j" by (simp add: j(3) length_toLowerCase)
  have agree_j: "all_agree strip ms m0 j" using j(1) j(4) by simp
  have r_common: "list_all (\<lambda>m. toLowerCase (take (length ?r) (strip m)) = ?r) ms"
    using agree_j by (simp add: all_agree_def Let_def j(3))
  have maximal: "length q' \<le> length ?r"
    if q': "list_all (\<lambda>m. toLowerCase (take (length q') (strip m)) = toLowerCase q') ms"
    for q'
  proof (rule ccontr)
    assume "\<not> length q' \<le> length ?r"
    then have gt: "length ?r < length q'" by simp
    have q'_m: "toLowerCase (take (length q') (strip m)) = toLowerCase q'" if "m \<in> set ms" for m
      using q' that by (simp add: list_all_iff)
    have q'_S0: "length q' \<le> length ?S0" using q'_m [OF m0_in] by (rule ci_prefix_length)
    with gt len_r have jq: "Suc j \<le> length q'" by (simp add: min_def split: if_splits)
    with q'_S0 S0_le have "Suc j \<le> length m0" by simp
    moreover have "all_agree strip ms m0 (Suc j)"
    proof -
      have "toLowerCase (take (Suc j) (strip m)) = toLowerCase (take (Suc j) ?S0)"
        if "m \<in> set ms" for m
        using ci_prefix_take [OF q'_m [OF that] jq] ci_prefix_take [OF q'_m [OF m0_in] jq]
        by simp
      moreover have "min (length ?S0) (Suc j) = Suc j" using jq q'_S0 by simp
      ultimately show ?thesis by (simp add: all_agree_iff list_all_iff)
    qed
    ultimately show False using j(5) by simp
  qed
  have "length q \<le> length ?r" using common by (rule maximal)
  with longer have neq: "?r \<noteq> p" by auto
  have gm: "go_matches strip (sort L) p = ms" using ms by simp
  have "go strip (sort L) p = Some ?r"
    unfolding go_def gm Let_def using shape neq by simp
  then have "match strip p (Arr L) = Inr (Some ?r)"
    by (simp add: match_def)
  with r_common maximal show ?thesis by blast
qed

lemma match_common_prefix_example:
  "(\<exists>r. match (\<lambda>s. s) ''p'' (Arr [''push'', ''pull'']) = Inr (Some r)
       \<and> list_all (\<lambda>m. toLowerCase (take (length r) m) = r) [''pull'', ''push'']
       \<and> (\<forall>q'. list_all (\<lambda>m. toLowerCase (take (length q') m) = toLowerCase q')
                   [''pull'', ''push'']
               \<longrightarrow> length q' \<le> length r))
   \<and> match (\<lambda>s. s) ''p'' (Arr [''push'', ''pull'']) = Inr (Some ''pu'')"
proof -
  have ms: "[''pull'', ''push''] = go_matches (\<lambda>s. s) (sort [''push'', ''pull'']) ''p''"
    by code_simp
  have common: "list_all (\<lambda>m. toLowerCase (take (length ''pu'') ((\<lambda>s. s) m)) = toLowerCase ''pu'')
      [''pull'', ''push'']"
    by code_simp
  have val: "match (\<lambda>s. s) ''p'' (Arr [''push'', ''pull'']) = Inr (Some ''pu'')"
    by code_simp
  show ?thesis
    using match_common_prefix [of "\<lambda>s. s" "[''pull'', ''push'']" "[''push'', ''pull'']" "''p''" "''pu''",
        OF _ ms _ _ common] val
    by simp
qed

text \<open>
  C4, at an input where the code departs from it. For the probe \<^verbatim>\<open>P\<close> and the
  candidates \<^verbatim>\<open>Push\<close> and \<^verbatim>\<open>Pull\<close> the result is \<^verbatim>\<open>pu\<close>: the loop keeps the
  lower-cased text it compares with. The prefix of that length of either candidate is
  \<^verbatim>\<open>Pu\<close>. \<^verbatim>\<open>filterData\<close>, which compares without folding case, finds no candidate
  that starts with the result.
\<close>

theorem match_lower_cases_prefix:
  "match (\<lambda>s. s) ''P'' (Arr [''Push'', ''Pull'']) = Inr (Some ''pu'')
   \<and> take 2 ''Push'' = ''Pu'' \<and> take 2 ''Pull'' = ''Pu'' \<and> ''pu'' \<noteq> ''Pu''
   \<and> filterData (\<lambda>s. s) (Some ''pu'') (Arr [''Pull'', ''Push'']) = Inr []"
  by code_simp

section \<open>The tab counter\<close>

lemma add_one_safe: "- (2 ^ 53) < c \<Longrightarrow> c < 2 ^ 53 \<Longrightarrow> add_one c = c + 1"
  by (simp add: add_one_def)

text \<open>
  C3. For a counter in the range of the safe integers, where \<^verbatim>\<open>+= 1\<close> is exact: on a
  list the counter is incremented and the list is returned only when the new counter
  exceeds 1, an empty list never; on a string the counter is reset to 0 and the string is
  returned.
\<close>

theorem handleTabCounts_protocol:
  assumes "- (2 ^ 53) < c" and "c < 2 ^ 53"
  shows "handleTabCounts (Arr xs) c =
           ((if c + 1 > 1 \<and> xs \<noteq> [] then Arr xs else Undefined), c + 1)
       \<and> handleTabCounts (Arr xs) 0 = (Undefined, 1)
       \<and> handleTabCounts (Arr []) c = (Undefined, c + 1)
       \<and> handleTabCounts (Str s) c = (Str s, 0)"
  using assms by (simp add: handleTabCounts_def Let_def add_one_safe add_one_def)

theorem handleTabCounts_protocol_witness:
  "handleTabCounts (Arr [''pull'', ''push'']) 0 = (Undefined, 1)
   \<and> handleTabCounts (Arr [''pull'', ''push'']) 1 = (Arr [''pull'', ''push''], 2)
   \<and> handleTabCounts (Arr []) 1 = (Undefined, 2)
   \<and> handleTabCounts (Str ''push '') 2 = (Str ''push '', 0)"
proof -
  have b0: "- (2 ^ 53) < (0::int)" "(0::int) < 2 ^ 53" by simp_all
  have b1: "- (2 ^ 53) < (1::int)" "(1::int) < 2 ^ 53" by simp_all
  have b2: "- (2 ^ 53) < (2::int)" "(2::int) < 2 ^ 53" by simp_all
  show ?thesis
    using handleTabCounts_protocol [OF b0, of "[''pull'', ''push'']"]
      handleTabCounts_protocol [OF b1, of "[''pull'', ''push'']"]
      handleTabCounts_protocol [OF b1, of "[]"]
      handleTabCounts_protocol [OF b2, of "[]" "''push ''"]
    by simp
qed

section \<open>Properties of getMatchObject\<close>

lemma foldl_scan_command:
  "foldl (scan_command t) (m, s, p) cs =
     (if literal_prefixes t cs = [] then (m, s, p)
      else (Some (last (literal_prefixes t cs)),
            Some (drop (length (last (literal_prefixes t cs))) t),
            p @ concat (literal_prefixes t cs)))"
proof (induction cs arbitrary: m s p)
  case Nil
  show ?case by (simp add: literal_prefixes_def)
next
  case (Cons c cs)
  show ?case
  proof (cases "substr t 0 (length c) = c \<and> trim c \<noteq> []")
    case True
    then have step: "scan_command t (m, s, p) c
        = (Some c, Some (drop (length c) t), p @ c)"
      by (simp add: scan_command_def substr_from_def)
    have lp: "literal_prefixes t (c # cs) = c # literal_prefixes t cs"
      using True by (simp add: literal_prefixes_def)
    show ?thesis
      by (simp add: step lp Cons.IH)
  next
    case False
    then have step: "scan_command t (m, s, p) c = (m, s, p)"
      by (auto simp: scan_command_def)
    have lp: "literal_prefixes t (c # cs) = literal_prefixes t cs"
      using False by (auto simp: literal_prefixes_def)
    show ?thesis
      by (simp add: step lp Cons.IH)
  qed
qed

lemma literal_prefixes_not_empty:
  "c \<in> set (literal_prefixes t cs) \<Longrightarrow> c \<noteq> []"
  by (auto simp: literal_prefixes_def trim_def)

text \<open>
  What \<^verbatim>\<open>getMatchObject\<close> does when some name is a literal prefix of the trimmed context
  and the last such name is the name of a command: the new context is the rest of the
  trimmed context after that name, and the prefix receives the leading white space as
  spaces and every name that is a literal prefix, one after the other.
\<close>

lemma getMatchObject_by_name:
  assumes ctx: "i_context input = Some ctx"
    and some: "literal_prefixes (trim_start ctx) commands \<noteq> []"
    and found: "find (\<lambda>c. c_name c = trim (last (literal_prefixes (trim_start ctx) commands)))
                  cmds = Some matchObject"
  shows "getMatchObject cmds input commands =
           Inr (input\<lparr>i_match := Some matchObject,
                      i_prefix := i_prefix input
                        @ spaces (length ctx - length (trim_start ctx))
                        @ concat (literal_prefixes (trim_start ctx) commands),
                      i_context := Some (drop (length (last
                        (literal_prefixes (trim_start ctx) commands))) (trim_start ctx))\<rparr>)"
proof -
  have "last (literal_prefixes (trim_start ctx) commands) \<noteq> []"
    using some literal_prefixes_not_empty [OF last_in_set] by blast
  then show ?thesis
    using ctx some found
    by (simp add: getMatchObject_def Let_def foldl_scan_command String_of_def)
qed

lemma plain_command_sel:
  "c_name (plain_command n a c) = n"
  "c_aliases (plain_command n a c) = a"
  "c_catch (plain_command n a c) = c"
  by (simp_all add: plain_command_def)

lemma trim_undefined: "trim ''undefined'' = ''undefined''"
  by (simp add: trim_def is_space_def)

lemma alias_lookup_None:
  "list_all (\<lambda>c. name \<notin> set (c_aliases c)) cmds \<Longrightarrow> alias_lookup cmds name = None"
proof -
  have "list_all (\<lambda>c. name \<notin> set (c_aliases c)) cmds \<Longrightarrow>
      foldl (\<lambda>matchObject cmd. if name \<in> set (c_aliases cmd) then Some cmd else matchObject)
        acc cmds = acc" for acc
    by (induction cmds arbitrary: acc) auto
  then show "list_all (\<lambda>c. name \<notin> set (c_aliases c)) cmds \<Longrightarrow> alias_lookup cmds name = None"
    by (simp add: alias_lookup_def)
qed

text \<open>
  What \<^verbatim>\<open>getMatchObject\<close> does when no name is a literal prefix of the trimmed context,
  no command has the alias \<^verbatim>\<open>undefined\<close>, and the registry has a catch-all command: it
  resolves to the first catch-all command, and the context stays as it is.
\<close>

lemma getMatchObject_catch_all:
  assumes ctx: "i_context input = Some ctx"
    and none: "literal_prefixes (trim_start ctx) commands = []"
    and no_alias: "list_all (\<lambda>c. ''undefined'' \<notin> set (c_aliases c)) cmds"
    and catch: "find c_catch cmds = Some matchObject"
  shows "getMatchObject cmds input commands =
           Inr (input\<lparr>i_match := Some matchObject,
                      i_prefix := i_prefix input @ spaces (length ctx - length (trim_start ctx)),
                      i_context := Some ctx\<rparr>)"
  using ctx none catch alias_lookup_None [OF no_alias]
  by (simp add: getMatchObject_def Let_def foldl_scan_command String_of_def trim_undefined)

text \<open>
  C5, at an input where the code departs from it. With the names \<^verbatim>\<open>he\<close> and \<^verbatim>\<open>help\<close>
  registered and the context \<^verbatim>\<open>help foo\<close>, both names are literal prefixes of the
  context: the command resolved is \<^verbatim>\<open>help\<close> and the new context is \<^verbatim>\<open> foo\<close>, but the
  prefix receives \<^verbatim>\<open>hehelp\<close>, not \<^verbatim>\<open>help\<close>.
\<close>

theorem getMatchObject_prefix_accumulates:
  "getMatchObject [plain_command ''he'' [] False, plain_command ''help'' [] False]
       (parseInput ''help foo'' 8) [''he'', ''help'']
     = Inr \<lparr>i_raw = ''help foo'', i_prefix = ''hehelp'', i_suffix = [],
            i_context = Some '' foo'', i_match = Some (plain_command ''help'' [] False),
            i_option = None\<rparr>"
proof -
  have input: "(parseInput ''help foo'' 8 :: command input)
      = \<lparr>i_raw = ''help foo'', i_prefix = [], i_suffix = [],
         i_context = Some ''help foo'', i_match = None, i_option = None\<rparr>"
    by (simp add: parseInput_def Let_def slice_def slice_from_def getSuffix_def)
  have lp: "literal_prefixes ''help foo'' [''he'', ''help''] = [''he'', ''help'']"
    by (simp add: literal_prefixes_def trim_def substr_def is_space_def)
  have tr: "trim ''help'' = ''help''" "trim_start ''help foo'' = ''help foo''"
    by (simp_all add: trim_def trim_start_def is_space_def)
  have found: "find (\<lambda>c. c_name c = trim (last (literal_prefixes (trim_start ''help foo'')
        [''he'', ''help''])))
      [plain_command ''he'' [] False, plain_command ''help'' [] False]
      = Some (plain_command ''help'' [] False)"
    by (simp add: lp tr plain_command_sel)
  show ?thesis
    using getMatchObject_by_name [OF _ _ found, of "parseInput ''help foo'' 8"]
    by (simp add: input lp tr spaces_def)
qed

text \<open>
  C9, at an input where the code departs from it. The registry holds a command with the
  alias \<^verbatim>\<open>undefined\<close> and a catch-all command; the context \<^verbatim>\<open>xyz\<close> matches no name and
  no alias. The variable \<^verbatim>\<open>match\<close> stays undefined, \<^verbatim>\<open>String(match)\<close> is the string
  \<^verbatim>\<open>undefined\<close>, and the lookup among the aliases resolves to the first command, not to
  the catch-all; the new context is undefined.
\<close>

theorem getMatchObject_alias_undefined:
  "getMatchObject [plain_command ''foo'' [''undefined''] False, plain_command [] [] True]
       (parseInput ''xyz'' 3)
       (getCommandNames [plain_command ''foo'' [''undefined''] False, plain_command [] [] True])
     = Inr \<lparr>i_raw = ''xyz'', i_prefix = [], i_suffix = [], i_context = None,
            i_match = Some (plain_command ''foo'' [''undefined''] False), i_option = None\<rparr>"
proof -
  have input: "(parseInput ''xyz'' 3 :: command input)
      = \<lparr>i_raw = ''xyz'', i_prefix = [], i_suffix = [],
         i_context = Some ''xyz'', i_match = None, i_option = None\<rparr>"
    by (simp add: parseInput_def Let_def slice_def slice_from_def getSuffix_def)
  have names: "getCommandNames [plain_command ''foo'' [''undefined''] False,
        plain_command [] [] True] = [[], ''foo'', ''undefined'']"
    by (simp add: getCommandNames_def plain_command_sel)
  have tr: "trim_start ''xyz'' = ''xyz''"
    by (simp add: trim_start_def is_space_def)
  have lp: "literal_prefixes ''xyz'' [[], ''foo'', ''undefined''] = []"
    by (simp add: literal_prefixes_def trim_def substr_def is_space_def)
  have scan: "foldl (scan_command ''xyz'') (None, None, spaces 0) [[], ''foo'', ''undefined'']
      = (None, None, [])"
    by (simp only: foldl_scan_command lp spaces_def replicate_0) simp
  have looked: "alias_lookup [plain_command ''foo'' [''undefined''] False,
        plain_command [] [] True] ''undefined''
      = Some (plain_command ''foo'' [''undefined''] False)"
    by (simp add: alias_lookup_def plain_command_sel)
  show ?thesis
    unfolding getMatchObject_def input names
    by (simp add: Let_def tr scan looked String_of_def trim_undefined del: foldl_Cons)
qed

section \<open>Properties of getMatchData and handleDataFormat\<close>

lemma option_flags_all:
  "list_all (\<lambda>x. truthy_str (o_long x) \<or> truthy_str (o_short x)) opts \<Longrightarrow>
   option_flags opts =
     map (\<lambda>x. if truthy_str (o_long x) then or_empty (o_long x) else or_empty (o_short x)) opts"
  by (induction opts) auto

text \<open>
  C8. When the trimmed context of a matched command begins with a dash,
  \<^verbatim>\<open>getMatchData\<close> calls its continuation once, with one candidate per declared option,
  the long form when the option has one and the short form otherwise; no data provider
  is consulted. Every option is taken to have one of the two forms.
\<close>

theorem getMatchData_option_flags:
  assumes "i_match input = Some cmd"
    and "i_context input = Some ctx"
    and "slice (trim ctx) 0 1 = ''-''"
    and "list_all (\<lambda>x. truthy_str (o_long x) \<or> truthy_str (o_short x)) (c_options cmd)"
  shows "getMatchData strip input cb s =
           cb (Arr (map (\<lambda>x. if truthy_str (o_long x) then or_empty (o_long x)
                               else or_empty (o_short x)) (c_options cmd))) s"
  using assms by (simp add: getMatchData_def Let_def String_of_def option_flags_all)

theorem getMatchData_option_flags_witness:
  "getMatchData (\<lambda>s. s)
      \<lparr>i_raw = ''cmd -'', i_prefix = ''cmd '', i_suffix = [], i_context = Some ''-'',
        i_match = Some \<lparr>c_name = ''cmd'', c_aliases = [], c_catch = False,
          c_options = [\<lparr>o_short = Some ''-f'', o_long = Some ''--force'',
                          o_autocomplete = StaticList [''never'']\<rparr>,
                       \<lparr>o_short = Some ''-v'', o_long = None, o_autocomplete = NoData\<rparr>],
          c_autocomplete = Direct (StaticList [''unused''])\<rparr>,
        i_option = None\<rparr>
      recording []
    = ([Arr [''--force'', ''-v'']], None)"
proof -
  let ?cmd = "\<lparr>c_name = ''cmd'', c_aliases = [], c_catch = False,
          c_options = [\<lparr>o_short = Some ''-f'', o_long = Some ''--force'',
                          o_autocomplete = StaticList [''never'']\<rparr>,
                       \<lparr>o_short = Some ''-v'', o_long = None, o_autocomplete = NoData\<rparr>],
          c_autocomplete = Direct (StaticList [''unused''])\<rparr>"
  let ?input = "\<lparr>i_raw = ''cmd -'', i_prefix = ''cmd '', i_suffix = [], i_context = Some ''-'',
        i_match = Some ?cmd, i_option = None\<rparr>"
  have dash: "slice (trim ''-'') 0 1 = ''-''"
    by (simp add: trim_def is_space_def slice_def)
  have forms: "list_all (\<lambda>x. truthy_str (o_long x) \<or> truthy_str (o_short x)) (c_options ?cmd)"
    by simp
  show ?thesis
    using getMatchData_option_flags [of ?input ?cmd "''-''" "\<lambda>s. s" recording "[]", OF _ _ dash forms]
    by (simp add: recording_def or_empty_def)
qed

lemma deliver_all_noop: "deliver_all (\<lambda>res s. (s, None)) vs s = (s, None)"
  by (induction vs) auto



lemma fst_unhandled: "fst (unhandled x) = fst x"
  by (cases x; cases "snd x") auto

lemma end_cb_error_slots:
  "error_slots_undefined s \<Longrightarrow> error_slots_undefined (end_cb v s)"
  by (simp add: error_slots_undefined_def end_cb_def split: prod.splits)

lemma on_data_error_slots:
  "error_slots_undefined s \<Longrightarrow> error_slots_undefined (fst (on_data strip d s))"
  by (auto simp: on_data_def Let_def error_slots_undefined_def end_cb_def
      split: option.splits sum.splits prod.splits)

lemma deliver_all_invariant:
  assumes "\<And>v s. I s \<Longrightarrow> I (fst (k v s))"
  shows "I s \<Longrightarrow> I (fst (deliver_all k vs s))"
proof (induction vs arbitrary: s)
  case Nil
  then show ?case by simp
next
  case (Cons v vs)
  have step: "I (fst (k v s))" using Cons.prems by (rule assms)
  show ?case
  proof (cases "k v s")
    case (Pair s1 r)
    with step have "I s1" by simp
    with Pair Cons.IH show ?thesis by (cases r) auto
  qed
qed

lemma handleDataFormat_invariant:
  assumes k: "\<And>v s. I s \<Longrightarrow> I (fst (k v s))"
    and s: "I s"
  shows "I (fst (handleDataFormat str config k s))"
proof (cases config)
  case NoData
  then show ?thesis using k [OF s] by (simp add: handleDataFormat_def)
next
  case (StaticList xs)
  then show ?thesis using k [OF s] by (simp add: handleDataFormat_def)
next
  case (Function n f)
  have ck: "I (fst (cbk n k v s'))" if "I s'" for v s'
    using k [OF that] that by (simp add: cbk_def)
  have d: "I (fst (deliver_all (cbk n k) (delivers (f str)) s))"
    by (rule deliver_all_invariant [where I = I and k = "cbk n k"]) (simp_all add: ck s)
  obtain s1 r where dr: "deliver_all (cbk n k) (delivers (f str)) s = (s1, r)"
    by (cases "deliver_all (cbk n k) (delivers (f str)) s")
  with d have s1: "I s1" by simp
  have kk: "I (fst (k v s1))" for v using s1 by (rule k)
  have twice: "I (fst (case k v s1 of (s2, None) \<Rightarrow> (s2, None)
      | (s2, Some err) \<Rightarrow> unhandled (k (thrown_value err) s2)))" for v
  proof (cases "k v s1")
    case (Pair s2 r2)
    with kk [of v] have "I s2" by simp
    then have "I (fst (k err s2))" for err by (rule k)
    with Pair \<open>I s2\<close> show ?thesis by (cases r2) (auto simp: fst_unhandled)
  qed
  show ?thesis
    using Function dr s1 kk twice
    by (auto simp: handleDataFormat_def Let_def fst_unhandled
        split: option.splits outcome.splits settlement.splits)
qed

lemma getMatchData_invariant:
  assumes k: "\<And>v s. I s \<Longrightarrow> I (fst (k v s))"
    and s: "I s"
  shows "I (fst (getMatchData strip input k s))"
proof -
  have h: "I (fst (handleDataFormat str config k s))" for str config
    by (rule handleDataFormat_invariant [where I = I and k = k]) (simp_all add: k s)
  show ?thesis
    using s k [OF s] h by (auto simp: getMatchData_def Let_def split: option.splits)
qed

lemma exec_error_slots: "error_slots_undefined (fst (exec strip cmds line cursor tabCtr))"
proof -
  have init: "error_slots_undefined \<lparr>s_tabCtr = tabCtr, s_input = inp, s_calls = []\<rparr>" for inp
    by (simp add: error_slots_undefined_def)
  have upd: "error_slots_undefined (s\<lparr>s_input := inp\<rparr>) = error_slots_undefined s" for s inp
    by (simp add: error_slots_undefined_def)
  have gmd: "error_slots_undefined (fst (getMatchData strip inp (on_data strip) s))"
    if "error_slots_undefined s" for inp s
    by (rule getMatchData_invariant [where I = error_slots_undefined and k = "on_data strip"])
      (simp_all add: on_data_error_slots that)
  show ?thesis
    by (auto simp: exec_def Let_def init upd end_cb_error_slots gmd
        split: option.splits sum.splits)
qed

text \<open>
  C6, at an input where the code departs from it. The command \<^verbatim>\<open>help\<close> has a provider
  function that returns a promise, and the promise is rejected with an \<^verbatim>\<open>Error\<close>. On
  the line \<^verbatim>\<open>help pu\<close> the \<^verbatim>\<open>catch\<close> handler passes the error to the continuation of
  \<^verbatim>\<open>exec\<close>, which hands it to \<^verbatim>\<open>match\<close> as the candidate list; \<^verbatim>\<open>arr.sort()\<close> throws a
  \<^verbatim>\<open>TypeError\<close> in the handler, which is left as an unhandled rejection, and the
  completion callback is never called: the rejection value reaches no slot of it. Only a
  rejection value that is itself a list goes through: it is taken as the candidates, and
  the completion callback is called with \<^verbatim>\<open>undefined\<close> as the error.
\<close>

theorem exec_rejected_promise:
  "snd (exec (\<lambda>s. s)
         [provider_command ''help'' (Function 1 (\<lambda>str.
            \<lparr>delivers = [], outcome = ReturnsThenable (Rejects (ErrorObj ''boom''))\<rparr>))]
         ''help pu'' 7 1) = Some (Unhandled sort_TypeError)
   \<and> s_calls (fst (exec (\<lambda>s. s)
         [provider_command ''help'' (Function 1 (\<lambda>str.
            \<lparr>delivers = [], outcome = ReturnsThenable (Rejects (ErrorObj ''boom''))\<rparr>))]
         ''help pu'' 7 1)) = []
   \<and> snd (exec (\<lambda>s. s)
         [provider_command ''help'' (Function 1 (\<lambda>str.
            \<lparr>delivers = [], outcome = ReturnsThenable (Rejects (Arr [''push'', ''pull'']))\<rparr>))]
         ''help pu'' 7 1) = None
   \<and> s_calls (fst (exec (\<lambda>s. s)
         [provider_command ''help'' (Function 1 (\<lambda>str.
            \<lparr>delivers = [], outcome = ReturnsThenable (Rejects (Arr [''push'', ''pull'']))\<rparr>))]
         ''help pu'' 7 1)) = [(Undefined, Arr [''pull'', ''push''])]"
  by code_simp




section \<open>Exceptions and calls of the completion callback in exec\<close>

lemma getMatch_listy: "listy d \<Longrightarrow> \<exists>r. getMatch strip ctx d = Inr r"
  by (cases d) (auto simp: getMatch_def match_def Let_def split: option.splits)

lemma filterData_listy: "listy d \<Longrightarrow> \<exists>xs. filterData strip c (sorted_in_place d) = Inr xs"
  by (cases d) (auto simp: filterData_def sorted_in_place_def Let_def)

lemma end_cb_calls:
  "s_calls (end_cb v s) = s_calls s @ [(Undefined, fst (handleTabCounts v (s_tabCtr s)))]"
  by (simp add: end_cb_def split: prod.splits)

lemma end_cb_input: "s_input (end_cb v s) = s_input s"
  by (simp add: end_cb_def split: prod.splits)

lemma on_data_listy:
  assumes "listy d" and "i_context (s_input s) \<noteq> None"
  shows "\<exists>s'. on_data strip d s = (s', None) \<and> i_context (s_input s') \<noteq> None
           \<and> length (s_calls s') = Suc (length (s_calls s))"
proof -
  obtain ctx where ctx: "i_context (s_input s) = Some ctx" using assms(2) by auto
  obtain r where r: "getMatch strip ctx d = Inr r"
    using getMatch_listy [OF assms(1)] by blast
  obtain xs where xs: "filterData strip (Some ctx) (sorted_in_place d) = Inr xs"
    using filterData_listy [OF assms(1)] by blast
  show ?thesis
  proof (cases "truthy_str r")
    case True
    then obtain m where "r = Some m" by (cases r) auto
    with True ctx r show ?thesis
      by (simp add: on_data_def Let_def end_cb_calls end_cb_input)
  next
    case False
    with ctx r xs show ?thesis
      by (simp add: on_data_def Let_def end_cb_calls end_cb_input)
  qed
qed

lemma listy_or_empty: "listy d \<Longrightarrow> listy (if truthy d then d else Arr [])"
  by simp

lemma deliver_all_listy:
  assumes "2 \<le> n"
  shows "list_all listy vs \<Longrightarrow> i_context (s_input s) \<noteq> None \<Longrightarrow>
     \<exists>s'. deliver_all (cbk n (on_data strip)) vs s = (s', None)
        \<and> i_context (s_input s') \<noteq> None
        \<and> length (s_calls s') = length (s_calls s) + length vs"
proof (induction vs arbitrary: s)
  case Nil
  then show ?case by simp
next
  case (Cons v vs)
  from Cons.prems have v: "listy v" and vs: "list_all listy vs" by simp_all
  have k: "cbk n (on_data strip) v s = on_data strip (if truthy v then v else Arr []) s"
    using assms by (simp add: cbk_def)
  obtain s1 where s1: "on_data strip (if truthy v then v else Arr []) s = (s1, None)"
    "i_context (s_input s1) \<noteq> None" "length (s_calls s1) = Suc (length (s_calls s))"
    using on_data_listy [OF listy_or_empty [OF v] Cons.prems(2)] by blast
  obtain s' where "deliver_all (cbk n (on_data strip)) vs s1 = (s', None)"
    "i_context (s_input s') \<noteq> None" "length (s_calls s') = length (s_calls s1) + length vs"
    using Cons.IH [OF vs s1(2)] by blast
  with k s1 show ?case by simp
qed

lemma handleDataFormat_safe:
  assumes safe: "call_ok p str" and ctx: "i_context (s_input s) \<noteq> None"
  shows "\<exists>s'. handleDataFormat str p (on_data strip) s = (s', None)
           \<and> length (s_calls s) < length (s_calls s')"
proof (cases p)
  case NoData
  then show ?thesis
    using on_data_listy [of "Arr []" s strip] ctx by (auto simp: handleDataFormat_def)
next
  case (StaticList xs)
  then show ?thesis
    using on_data_listy [of "Arr xs" s strip] ctx by (auto simp: handleDataFormat_def)
next
  case (Function n f)
  with safe have ok: "provider_ok n (f str)" by simp
  let ?D = "delivers (f str)"
  have "\<exists>s1. deliver_all (cbk n (on_data strip)) ?D s = (s1, None)
      \<and> i_context (s_input s1) \<noteq> None
      \<and> length (s_calls s1) = length (s_calls s) + (if n < 2 then 0 else length ?D)"
  proof (cases "n < 2")
    case True
    then show ?thesis using ctx by (simp add: cbk_def deliver_all_noop)
  next
    case False
    then have n: "2 \<le> n" by simp
    from ok False have "list_all listy ?D" by (simp add: provider_ok_def)
    then show ?thesis using deliver_all_listy [OF n _ ctx] False by simp
  qed
  then obtain s1 where s1: "deliver_all (cbk n (on_data strip)) ?D s = (s1, None)"
    "i_context (s_input s1) \<noteq> None"
    "length (s_calls s1) = length (s_calls s) + (if n < 2 then 0 else length ?D)"
    by blast
  have one: "\<exists>s2. on_data strip d s1 = (s2, None)
      \<and> length (s_calls s2) = Suc (length (s_calls s1))" if "listy d" for d
    using on_data_listy [OF that s1(2)] by blast
  show ?thesis
  proof (cases "outcome (f str)")
    case (Returns res)
    show ?thesis
    proof (cases "n < 2")
      case True
      with ok Returns have "listy res" by (simp add: provider_ok_def)
      from one [OF this] obtain s2 where "on_data strip res s1 = (s2, None)"
        "length (s_calls s2) = Suc (length (s_calls s1))" by blast
      with Function Returns True s1 show ?thesis
        by (simp add: handleDataFormat_def Let_def)
    next
      case False
      with ok Returns have "?D \<noteq> []" by (simp add: provider_ok_def)
      with Function Returns False s1 show ?thesis
        by (simp add: handleDataFormat_def Let_def)
    qed
  next
    case (ReturnsThenable st)
    show ?thesis
    proof (cases st)
      case (Fulfils v)
      with ok ReturnsThenable have "listy v" by (simp add: provider_ok_def)
      from one [OF this] obtain s2 where "on_data strip v s1 = (s2, None)"
        "length (s_calls s2) = Suc (length (s_calls s1))" by blast
      with Function ReturnsThenable Fulfils s1 show ?thesis
        by (simp add: handleDataFormat_def Let_def)
    next
      case (Rejects e)
      with ok ReturnsThenable have "listy e" by (simp add: provider_ok_def)
      from one [OF this] obtain s2 where "on_data strip e s1 = (s2, None)"
        "length (s_calls s2) = Suc (length (s_calls s1))" by blast
      with Function ReturnsThenable Rejects s1 show ?thesis
        by (simp add: handleDataFormat_def Let_def)
    next
      case Pending
      with ok ReturnsThenable have "2 \<le> n \<and> ?D \<noteq> []" by (simp add: provider_ok_def)
      with Function ReturnsThenable Pending s1 show ?thesis
        by (simp add: handleDataFormat_def Let_def)
    qed
  next
    case (Throws ex)
    with ok show ?thesis by (simp add: provider_ok_def)
  qed
qed

lemma getMatchData_chosen:
  assumes "i_match input = Some cmd"
  shows "getMatchData strip input cb s =
     (case chosen_provider strip input of
        None \<Rightarrow> cb (Arr (option_flags (c_options cmd))) s
      | Some p \<Rightarrow> handleDataFormat (i_context input) p cb s)"
  using assms
  by (simp add: getMatchData_def chosen_provider_def Let_def split: option.splits)

lemma getMatchData_safe:
  assumes cmd: "i_match input = Some cmd"
    and safe: "\<And>p. chosen_provider strip input = Some p \<Longrightarrow> call_ok p (i_context input)"
    and ctx: "i_context (s_input s) \<noteq> None"
  shows "\<exists>s'. getMatchData strip input (on_data strip) s = (s', None)
           \<and> length (s_calls s) < length (s_calls s')"
proof (cases "chosen_provider strip input")
  case None
  then show ?thesis
    using on_data_listy [of "Arr (option_flags (c_options cmd))" s strip] ctx
    by (auto simp: getMatchData_chosen [OF cmd])
next
  case (Some p)
  then show ?thesis
    using handleDataFormat_safe [OF safe [OF Some] ctx]
    by (simp add: getMatchData_chosen [OF cmd])
qed

lemma alias_lookup_member:
  "alias_lookup cmds name = Some c \<Longrightarrow> c \<in> set cmds"
proof -
  have "foldl (\<lambda>matchObject cmd. if name \<in> set (c_aliases cmd) then Some cmd else matchObject)
      acc cmds = Some c \<Longrightarrow> c \<in> set cmds \<or> acc = Some c" for acc
    by (induction cmds arbitrary: acc) (auto split: if_splits)
  then show "alias_lookup cmds name = Some c \<Longrightarrow> c \<in> set cmds"
    by (auto simp: alias_lookup_def)
qed

lemma find_member: "find P xs = Some x \<Longrightarrow> x \<in> set xs"
  by (auto simp: find_Some_iff)

lemma getMatchObject_resolves:
  assumes "i_context input = Some ctx" and "i_match input = None"
  shows "\<exists>input1. getMatchObject cmds input commands = Inr input1
           \<and> (i_match input1 = None \<or> (\<exists>c. i_match input1 = Some c \<and> c \<in> set cmds))"
  using assms
  by (auto simp: getMatchObject_def Let_def
      split: prod.splits option.splits if_splits
      dest: find_member alias_lookup_member)

lemma parseMatchSection_fields:
  "i_context (parseMatchSection strip input) = Some (last (split (CHR '' '') (or_empty (i_context input))))"
  "i_match (parseMatchSection strip input) = i_match input"
  by (simp_all add: parseMatchSection_def Let_def)

lemma no_data_result:
  assumes "i_context (s_input s) = Some ctx"
  shows "handleDataFormat str NoData (on_data strip) s
    = (end_cb (Arr []) s, None)
    \<and> s_calls (end_cb (Arr []) s) = s_calls s @ [(Undefined, Undefined)]"
proof -
  have m: "getMatch strip ctx (Arr []) = Inr None"
    by (simp add: getMatch_def match_def go_def go_matches_def Let_def)
  have f: "filterData strip (Some ctx) (sorted_in_place (Arr [])) = Inr []"
    by (simp add: filterData_def sorted_in_place_def Let_def)
  show ?thesis
    using assms m f
    by (simp add: handleDataFormat_def on_data_def Let_def end_cb_calls handleTabCounts_def)
qed

text \<open>\<^verbatim>\<open>consulted\<close> is the configuration that \<^verbatim>\<open>exec\<close> hands to \<^verbatim>\<open>handleDataFormat\<close>,
  with the continuation of \<^verbatim>\<open>exec\<close> and before any call of the completion callback.\<close>

lemma chosen_provider_match:
  "chosen_provider strip input = Some p \<Longrightarrow> \<exists>cmd. i_match input = Some cmd"
  by (cases "i_match input") (simp_all add: chosen_provider_def)

lemma exec_consults:
  assumes "consulted strip cmds line cursor = Some (p, str)"
  shows "\<exists>s0. exec strip cmds line cursor tabCtr = handleDataFormat str p (on_data strip) s0
           \<and> s_calls s0 = []"
proof -
  let ?input = "parseInput line cursor :: command input"
  from assms obtain ctx vm input1 where
    f: "i_context ?input = Some ctx" "getMatch strip ctx (Arr (getCommandNames cmds)) = Inr vm"
      "\<not> truthy_str vm"
      "getMatchObject cmds ?input (sort (getCommandNames cmds)) = Inr input1"
      "chosen_provider strip (parseMatchSection strip input1) = Some p"
      "str = i_context (parseMatchSection strip input1)"
    by (auto simp: consulted_def Let_def split: option.splits sum.splits if_splits)
  from chosen_provider_match [OF f(5)] obtain cmd where
    cmd: "i_match (parseMatchSection strip input1) = Some cmd" by blast
  then have "i_match input1 \<noteq> None" by (simp add: parseMatchSection_fields)
  then show ?thesis
    using f cmd by (auto simp: exec_def Let_def getMatchData_chosen [OF cmd])
qed

text \<open>
  C2, as amended. When the data provider that \<^verbatim>\<open>exec\<close> consults for the line, if it
  consults one, is absent, a static list, or a function whose call throws nothing and
  hands the continuation at least one value, each of them a list or falsy, \<^verbatim>\<open>exec\<close> lets
  no exception escape, leaves no unhandled rejection, and calls the completion callback
  at least once, every time with \<^verbatim>\<open>undefined\<close> as the error. And a provider
  configuration that is neither an array nor a function makes the continuation of
  \<^verbatim>\<open>exec\<close> call the completion callback with the result \<^verbatim>\<open>undefined\<close>, and nothing is
  thrown.
\<close>

theorem exec_safe:
  assumes "consulted_ok strip cmds line cursor"
  shows "(\<exists>s. exec strip cmds line cursor tabCtr = (s, None)
            \<and> s_calls s \<noteq> [] \<and> error_slots_undefined s)
       \<and> (i_context (s_input s0) = Some ctx0 \<longrightarrow>
            (\<exists>s'. handleDataFormat str NoData (on_data strip) s0 = (s', None)
               \<and> s_calls s' = s_calls s0 @ [(Undefined, Undefined)]))"
proof (intro conjI impI)
  assume "i_context (s_input s0) = Some ctx0"
  then show "\<exists>s'. handleDataFormat str NoData (on_data strip) s0 = (s', None)
      \<and> s_calls s' = s_calls s0 @ [(Undefined, Undefined)]"
    using no_data_result [of s0 ctx0 str strip] by blast
next
  let ?input = "parseInput line cursor :: command input"
  let ?commands = "getCommandNames cmds"
  let ?s = "\<lparr>s_tabCtr = tabCtr, s_input = ?input, s_calls = []\<rparr>"
  obtain ctx where ctx: "i_context ?input = Some ctx"
    by (simp add: parseInput_def Let_def)
  have nomatch: "i_match ?input = None"
    by (simp add: parseInput_def Let_def)
  obtain vm where vm: "getMatch strip ctx (Arr ?commands) = Inr vm"
    using getMatch_listy [of "Arr ?commands"] by auto
  have "\<exists>s. exec strip cmds line cursor tabCtr = (s, None) \<and> s_calls s \<noteq> []"
  proof (cases "truthy_str vm")
    case True
    then show ?thesis
      using ctx vm by (simp add: exec_def Let_def end_cb_calls)
  next
    case False
    obtain input1 where gmo: "getMatchObject cmds ?input (sort ?commands) = Inr input1"
      using getMatchObject_resolves [OF ctx nomatch] by blast
    show ?thesis
    proof (cases "i_match input1")
      case None
      obtain xs where "filterData strip (i_context input1) (Arr (sort ?commands)) = Inr xs"
        by (auto simp: filterData_def Let_def)
      then show ?thesis
        using ctx vm False gmo None by (simp add: exec_def Let_def end_cb_calls)
    next
      case (Some c)
      let ?input2 = "parseMatchSection strip input1"
      let ?s2 = "?s\<lparr>s_input := ?input2\<rparr>"
      have m2: "i_match ?input2 = Some c" using Some by (simp add: parseMatchSection_fields)
      have c2: "i_context (s_input ?s2) \<noteq> None"
        by (simp add: parseMatchSection_fields)
      have safe: "call_ok p (i_context ?input2)" if "chosen_provider strip ?input2 = Some p" for p
        using assms ctx vm False gmo that
        by (simp add: consulted_ok_def consulted_def Let_def)
      obtain s' where "getMatchData strip ?input2 (on_data strip) ?s2 = (s', None)"
        "length (s_calls ?s2) < length (s_calls s')"
        using getMatchData_safe [OF m2 safe c2] by blast
      then show ?thesis
        using ctx vm False gmo Some by (auto simp: exec_def Let_def)
    qed
  qed
  then show "\<exists>s. exec strip cmds line cursor tabCtr = (s, None)
      \<and> s_calls s \<noteq> [] \<and> error_slots_undefined s"
    using exec_error_slots [of strip cmds line cursor tabCtr] by auto
qed

theorem exec_safe_witness:
  "consulted_ok (\<lambda>s. s)
     [provider_command ''help'' (Function 2 (\<lambda>str.
        \<lparr>delivers = [Arr [''push'', ''pull'']], outcome = ReturnsThenable (Fulfils Undefined)\<rparr>))]
     ''help pu'' 7
   \<and> (\<exists>s. exec (\<lambda>s. s)
         [provider_command ''help'' (Function 2 (\<lambda>str.
            \<lparr>delivers = [Arr [''push'', ''pull'']],
              outcome = ReturnsThenable (Fulfils Undefined)\<rparr>))]
         ''help pu'' 7 1 = (s, None)
          \<and> s_calls s \<noteq> [] \<and> error_slots_undefined s)
   \<and> (\<exists>s'. handleDataFormat None NoData (on_data (\<lambda>s. s))
          \<lparr>s_tabCtr = 1, s_input = parseInput ''help pu'' 7, s_calls = []\<rparr> = (s', None)
          \<and> s_calls s' = [(Undefined, Undefined)])"
proof -
  let ?cmds = "[provider_command ''help'' (Function 2 (\<lambda>str.
        \<lparr>delivers = [Arr [''push'', ''pull'']], outcome = ReturnsThenable (Fulfils Undefined)\<rparr>))]"
  let ?s0 = "\<lparr>s_tabCtr = 1, s_input = parseInput ''help pu'' 7 :: command input, s_calls = []\<rparr>"
  have safe: "consulted_ok (\<lambda>s. s) ?cmds ''help pu'' 7"
    by code_simp
  have c0: "i_context (s_input ?s0) = Some (last (split (CHR ''|'') (slice ''help pu'' 0 7)))"
    by (simp add: parseInput_def Let_def)
  show ?thesis
    using safe c0
      exec_safe [OF safe, where tabCtr = 1 and ?s0.0 = ?s0 and str = None
        and ?ctx0.0 = "last (split (CHR ''|'') (slice ''help pu'' 0 7))"]
    by simp
qed

text \<open>
  C2 as stated fails. A provider function that throws has its exception thrown out of
  \<^verbatim>\<open>exec\<close>, and the completion callback is not called; a provider function with a
  delivery callback that never calls it leaves the completion callback uncalled.
\<close>

theorem exec_exception_counterexample:
  "snd (exec (\<lambda>s. s)
         [provider_command ''help'' (Function 1 (\<lambda>str.
            \<lparr>delivers = [], outcome = Throws (ErrorObj ''boom'')\<rparr>))]
         ''help pu'' 7 0) = Some (Thrown (ErrorObj ''boom''))
   \<and> s_calls (fst (exec (\<lambda>s. s)
         [provider_command ''help'' (Function 1 (\<lambda>str.
            \<lparr>delivers = [], outcome = Throws (ErrorObj ''boom'')\<rparr>))]
         ''help pu'' 7 0)) = []
   \<and> s_calls (fst (exec (\<lambda>s. s)
         [provider_command ''help'' (Function 2 (\<lambda>str.
            \<lparr>delivers = [], outcome = Returns Undefined\<rparr>))]
         ''help pu'' 7 0)) = []"
  by code_simp

end
